theory Spec2Isabelle
  imports Complex_Main
begin

section \<open>JavaScript numbers\<close>

text \<open>
  A JavaScript number is a double: a finite value, one of the two infinities, or NaN.
  The finite values are reals, and the result of \<open>+\<close>, \<open>-\<close>, \<open>*\<close> and \<open>/\<close> on finite
  values is the exact result rounded to the nearest double, ties to the even
  significand, and to an infinity beyond the largest double (\<open>to_double\<close>). A value
  \<open>Num x\<close> is a JavaScript number when \<open>x\<close> is a double, that is when \<open>to_double\<close>
  leaves it unchanged. The sign of zero is not modelled. The other operations are those
  the component uses: \<open><\<close>, \<open>>=\<close>, \<open>isNaN\<close> and \<open>||\<close>.
\<close>

datatype jsnum = Num real | PosInf | NegInf | NaN

text \<open>The nearest integer, a tie going to the even one.\<close>

definition round_even :: "real \<Rightarrow> int" where
  "round_even x =
     (let n = \<lfloor>x\<rfloor>; f = x - of_int n
      in if f < 1 / 2 then n
         else if 1 / 2 < f then n + 1
         else if even n then n else n + 1)"

text \<open>
  The exponent of the unit in the last place of the doubles around a positive \<open>x\<close>: 53
  significant bits, and \<open>2 powr - 1074\<close> as the smallest spacing (the subnormal range).
\<close>

definition ulp_exponent :: "real \<Rightarrow> int" where
  "ulp_exponent x = max (\<lfloor>log 2 x\<rfloor> - 52) (- 1074)"

definition round_magnitude :: "real \<Rightarrow> real" where
  "round_magnitude x =
     (let u = 2 powr of_int (ulp_exponent x)
      in of_int (round_even (x / u)) * u)"

definition to_double :: "real \<Rightarrow> jsnum" where
  "to_double x =
     (if x = 0 then Num 0
      else if 2 ^ 1024 \<le> round_magnitude \<bar>x\<bar> then (if 0 < x then PosInf else NegInf)
      else Num (sgn x * round_magnitude \<bar>x\<bar>))"

fun js_isNaN :: "jsnum \<Rightarrow> bool" where
  "js_isNaN NaN = True"
| "js_isNaN _ = False"

fun js_lt :: "jsnum \<Rightarrow> jsnum \<Rightarrow> bool" where
  "js_lt (Num x) (Num y) = (x < y)"
| "js_lt (Num x) PosInf = True"
| "js_lt NegInf (Num y) = True"
| "js_lt NegInf PosInf = True"
| "js_lt _ _ = False"

text \<open>\<open>a >= b\<close> is false when either side is NaN, and otherwise the negation of \<open>a < b\<close>.\<close>

definition js_ge :: "jsnum \<Rightarrow> jsnum \<Rightarrow> bool" where
  "js_ge a b = (\<not> js_isNaN a \<and> \<not> js_isNaN b \<and> \<not> js_lt a b)"

fun js_neg :: "jsnum \<Rightarrow> jsnum" where
  "js_neg (Num x) = Num (- x)"
| "js_neg PosInf = NegInf"
| "js_neg NegInf = PosInf"
| "js_neg NaN = NaN"

fun js_add :: "jsnum \<Rightarrow> jsnum \<Rightarrow> jsnum" where
  "js_add (Num x) (Num y) = to_double (x + y)"
| "js_add NaN _ = NaN"
| "js_add _ NaN = NaN"
| "js_add PosInf NegInf = NaN"
| "js_add NegInf PosInf = NaN"
| "js_add PosInf _ = PosInf"
| "js_add NegInf _ = NegInf"
| "js_add _ PosInf = PosInf"
| "js_add _ NegInf = NegInf"

definition js_sub :: "jsnum \<Rightarrow> jsnum \<Rightarrow> jsnum" where
  "js_sub a b = js_add a (js_neg b)"

text \<open>The sign of a number that is not NaN: \<open>-1\<close>, \<open>0\<close> or \<open>1\<close>.\<close>

fun js_sign :: "jsnum \<Rightarrow> real" where
  "js_sign (Num x) = sgn x"
| "js_sign PosInf = 1"
| "js_sign NegInf = - 1"
| "js_sign NaN = 0"

definition signed_inf :: "real \<Rightarrow> jsnum" where
  "signed_inf s = (if s = 0 then NaN else if 0 < s then PosInf else NegInf)"

fun js_mul :: "jsnum \<Rightarrow> jsnum \<Rightarrow> jsnum" where
  "js_mul (Num x) (Num y) = to_double (x * y)"
| "js_mul NaN _ = NaN"
| "js_mul _ NaN = NaN"
| "js_mul a b = signed_inf (js_sign a * js_sign b)"

text \<open>
  Division: a finite number divided by zero is an infinity of the dividend's sign, and
  NaN when the dividend is zero too; a finite number divided by an infinity is zero; an
  infinity divided by an infinity is NaN.
\<close>

fun js_div :: "jsnum \<Rightarrow> jsnum \<Rightarrow> jsnum" where
  "js_div (Num x) (Num y) = (if y = 0 then signed_inf (sgn x) else to_double (x / y))"
| "js_div NaN _ = NaN"
| "js_div _ NaN = NaN"
| "js_div (Num x) _ = Num 0"
| "js_div a (Num y) = signed_inf (js_sign a * (if y < 0 then - 1 else 1))"
| "js_div _ _ = NaN"

text \<open>\<open>a || b\<close> on numbers: \<open>0\<close> and NaN are falsy.\<close>

definition js_or :: "jsnum \<Rightarrow> jsnum \<Rightarrow> jsnum" where
  "js_or a b = (if a = Num 0 \<or> a = NaN then b else a)"

fun is_finite :: "jsnum \<Rightarrow> bool" where
  "is_finite (Num x) = True"
| "is_finite _ = False"

text \<open>The real value of a finite number.\<close>

fun the_real :: "jsnum \<Rightarrow> real" where
  "the_real (Num x) = x"
| "the_real _ = 0"

section \<open>Geometry and the viewport test\<close>

text \<open>\<open>RectType\<close>, the result of \<open>getBoundingClientRect\<close>.\<close>

record RectType =
  rect_bottom :: jsnum
  rect_height :: jsnum
  rect_left :: jsnum
  rect_right :: jsnum
  rect_top :: jsnum
  rect_width :: jsnum

text \<open>
  What \<open>isInViewport\<close> reads from the page: the element's rectangle, the window's inner
  size and the document element's client size.
\<close>

record geometry =
  rect :: RectType
  innerHeight :: jsnum
  innerWidth :: jsnum
  clientHeight :: jsnum
  clientWidth :: jsnum

definition viewportHeight :: "geometry \<Rightarrow> jsnum" where
  "viewportHeight g = js_or (innerHeight g) (clientHeight g)"

definition viewportWidth :: "geometry \<Rightarrow> jsnum" where
  "viewportWidth g = js_or (innerWidth g) (clientWidth g)"

text \<open>The getter \<open>isInViewport\<close>, with \<open>this.props.offset\<close> as the first argument.\<close>

definition isInViewport :: "jsnum \<Rightarrow> geometry \<Rightarrow> bool" where
  "isInViewport off g =
     (js_ge (rect_bottom (rect g)) (js_sub (Num 0) off) \<and>
      js_ge (rect_right (rect g)) (js_sub (Num 0) off) \<and>
      js_lt (rect_top (rect g)) (js_add (viewportHeight g) off) \<and>
      js_lt (rect_left (rect g)) (js_add (viewportWidth g) off))"

text \<open>
  The reflection of a scenario in both axes at once, about the centre of the viewport:
  \<open>x\<close> goes to \<open>width - x\<close> and \<open>y\<close> to \<open>height - y\<close>, exactly. The viewport is mapped
  onto itself; the rectangle's left and right edges, and its top and bottom edges,
  change places. This is the transformation the specification speaks of, not code of
  the component.
\<close>

definition mirror :: "jsnum \<Rightarrow> jsnum \<Rightarrow> jsnum" where
  "mirror extent x = Num (the_real extent - the_real x)"

definition reflect :: "geometry \<Rightarrow> geometry" where
  "reflect g = g\<lparr>rect := (rect g)\<lparr>
     rect_left := mirror (viewportWidth g) (rect_right (rect g)),
     rect_right := mirror (viewportWidth g) (rect_left (rect g)),
     rect_top := mirror (viewportHeight g) (rect_bottom (rect g)),
     rect_bottom := mirror (viewportHeight g) (rect_top (rect g))\<rparr>\<rparr>"

definition finite_geometry :: "geometry \<Rightarrow> bool" where
  "finite_geometry g =
     (is_finite (rect_bottom (rect g)) \<and> is_finite (rect_right (rect g)) \<and>
      is_finite (rect_top (rect g)) \<and> is_finite (rect_left (rect g)) \<and>
      is_finite (viewportHeight g) \<and> is_finite (viewportWidth g))"

text \<open>
  The three borders the getter computes are exact: neither \<open>0 - offset\<close> nor the two
  sums of a viewport size and the offset are rounded.
\<close>

definition exact_border :: "jsnum \<Rightarrow> geometry \<Rightarrow> bool" where
  "exact_border off g =
     (js_sub (Num 0) off = Num (- the_real off) \<and>
      js_add (viewportHeight g) off = Num (the_real (viewportHeight g) + the_real off) \<and>
      js_add (viewportWidth g) off = Num (the_real (viewportWidth g) + the_real off))"

text \<open>No edge of the rectangle lies exactly on the border of the expanded viewport.\<close>

definition off_border :: "jsnum \<Rightarrow> geometry \<Rightarrow> bool" where
  "off_border off g =
     (rect_bottom (rect g) \<noteq> js_sub (Num 0) off \<and>
      rect_right (rect g) \<noteq> js_sub (Num 0) off \<and>
      rect_top (rect g) \<noteq> js_add (viewportHeight g) off \<and>
      rect_left (rect g) \<noteq> js_add (viewportWidth g) off)"

text \<open>An 800 by 600 window, and a 10 by 10 rectangle given by its left and top edge.\<close>

definition box :: "real \<Rightarrow> real \<Rightarrow> geometry" where
  "box l t =
     \<lparr>rect = \<lparr>rect_bottom = Num (t + 10), rect_height = Num 10, rect_left = Num l,
              rect_right = Num (l + 10), rect_top = Num t, rect_width = Num 10\<rparr>,
      innerHeight = Num 600, innerWidth = Num 800,
      clientHeight = Num 600, clientWidth = Num 800\<rparr>"

text \<open>
  The double nearest to 0.3, and a scenario in a 600 by 600 window whose rectangle ends
  at \<open>600 - 600.3\<close> as doubles compute it, a little to the right of \<open>- 0.3\<close>.
\<close>

definition three_tenths :: real where
  "three_tenths = 5404319552844595 / 2 ^ 54"

definition near_edge :: geometry where
  "near_edge =
     \<lparr>rect = \<lparr>rect_bottom = Num 10, rect_height = Num 10, rect_left = Num (- 16),
              rect_right = Num (- 2638827906662 / 2 ^ 43), rect_top = Num 0,
              rect_width = Num (16 - 2638827906662 / 2 ^ 43)\<rparr>,
      innerHeight = Num 600, innerWidth = Num 600,
      clientHeight = Num 600, clientWidth = Num 600\<rparr>"

section \<open>The component's data\<close>

text \<open>
  The \<open>ProgressEvent\<close> an \<open>XMLHttpRequest\<close> hands to \<open>onloadstart\<close> and \<open>onprogress\<close>:
  \<open>loaded\<close> and \<open>total\<close> are unsigned integers there.
\<close>

record progress_event =
  lengthComputable :: bool
  ev_loaded :: nat
  ev_total :: nat

text \<open>The field \<open>progress\<close>: loaded and total amount of bytes.\<close>

record progress_bytes =
  loaded :: nat
  total :: nat

text \<open>
  The part of the \<open>XMLHttpRequest\<close> object the component reads (\<open>status\<close>, \<open>response\<close>)
  and whether a fetch is under way on it (the standard's \<open>send()\<close> flag).
\<close>

record XMLHttpRequest =
  status :: nat
  response :: string
  inFlight :: bool

record Blob =
  blob_parts :: string
  blob_type :: string

text \<open>A \<open>FileReader\<close> when its \<open>loadend\<close> fires: \<open>reader.error\<close> (null is \<open>None\<close>) and \<open>reader.result\<close>.\<close>

record FileReader =
  reader_error :: "string option"
  reader_result :: string

text \<open>
  The errors handed to \<open>onError\<close>: \<open>new Error(event.response)\<close> from \<open>handleError\<close>, and
  the reader's error from the rejected promise of \<open>readBlobFile\<close>.
\<close>

datatype js_error = Error string | ReaderError string

text \<open>The callbacks of \<open>PropType\<close>. They are opaque to the component: calling one is an effect.\<close>

datatype callback =
  onLayout | onError js_error | onLoad | onLoadEnd | onLoadStart | onAbort | onProgress

text \<open>What the component does to the outside: it calls a callback or a method of the request.\<close>

datatype effect = Callback callback | XhrOpen string string | XhrSend | XhrAbort

text \<open>The props that are not callbacks.\<close>

record PropType =
  offset :: jsnum
  source :: string
  defaultSource :: string
  type :: string
  minLoaded :: jsnum

text \<open>
  An instance of \<open>Image\<close>: \<open>state.image\<close>, the fields \<open>isRequesting\<close>, \<open>progress\<close> and
  \<open>request\<close>, whether \<open>checkViewport\<close> is registered for the window's scroll event, the
  blobs whose \<open>readBlobFile\<close> promise is pending, and the effects so far, oldest first.
\<close>

record Image =
  state_image :: string
  isRequesting :: bool
  progress :: progress_bytes
  request :: XMLHttpRequest
  scrollListener :: bool
  reading :: "Blob list"
  effects :: "effect list"

text \<open>
  The platform, as far as the component depends on it: the event \<open>send()\<close> fires for
  \<open>loadstart\<close>, and what a \<open>FileReader\<close> makes of a blob.
\<close>

record environment =
  loadstart :: progress_event
  readAsDataURL :: "Blob \<Rightarrow> FileReader"

section \<open>The handlers\<close>

definition emit :: "callback \<Rightarrow> Image \<Rightarrow> Image" where
  "emit c s = s\<lparr>effects := effects s @ [Callback c]\<rparr>"

definition handleLoadStart :: "progress_event \<Rightarrow> Image \<Rightarrow> Image" where
  "handleLoadStart event s =
     (let s1 = s\<lparr>isRequesting := True\<rparr>;
          s2 = (if lengthComputable event
                then s1\<lparr>progress := (progress s1)\<lparr>loaded := 0, total := ev_total event\<rparr>\<rparr>
                else s1)
      in emit onLoadStart s2)"

definition handleProgress :: "progress_event \<Rightarrow> Image \<Rightarrow> Image" where
  "handleProgress event s =
     (let s1 = (if lengthComputable event
                then s\<lparr>progress := (progress s)\<lparr>loaded := ev_loaded event\<rparr>\<rparr>
                else s)
      in emit onProgress s1)"

definition handleLoad :: "Image \<Rightarrow> Image" where
  "handleLoad s = emit onLoad (s\<lparr>isRequesting := False\<rparr>)"

text \<open>The blob \<open>handleLoadEnd\<close> makes of a response.\<close>

definition response_blob :: "PropType \<Rightarrow> string \<Rightarrow> Blob" where
  "response_blob props body = \<lparr>blob_parts = body, blob_type = ''image/'' @ type props\<rparr>"

text \<open>
  \<open>handleLoadEnd\<close> up to the call of \<open>readBlobFile\<close>: with a status from 200 to 299 the
  response becomes a blob whose promise is pending; otherwise it returns null.
\<close>

definition handleLoadEnd :: "PropType \<Rightarrow> Image \<Rightarrow> Image" where
  "handleLoadEnd props s =
     (if 200 \<le> status (request s) \<and> status (request s) < 300
      then s\<lparr>reading := reading s @ [response_blob props (response (request s))]\<rparr>
      else s)"

text \<open>\<open>handleError\<close>; the argument is \<open>event.response\<close>.\<close>

definition handleError :: "string \<Rightarrow> Image \<Rightarrow> Image" where
  "handleError event_response s =
     emit (onError (Error event_response)) (s\<lparr>isRequesting := False\<rparr>)"

definition handleAbort :: "Image \<Rightarrow> Image" where
  "handleAbort s = emit onAbort (s\<lparr>isRequesting := False\<rparr>)"

text \<open>\<open>readBlobFile\<close>: the promise rejects with the reader's error, or resolves with its result.\<close>

definition readBlobFile :: "environment \<Rightarrow> Blob \<Rightarrow> string + string" where
  "readBlobFile env file =
     (let reader = readAsDataURL env file
      in case reader_error reader of
           Some e \<Rightarrow> Inl e
         | None \<Rightarrow> Inr (reader_result reader))"

definition componentDidUpdate :: "Image \<Rightarrow> Image" where
  "componentDidUpdate s = emit onLayout s"

text \<open>
  The \<open>then\<close> branch of \<open>handleLoadEnd\<close>: \<open>setState\<close> stores the image, a
  \<open>PureComponent\<close> renders again (and runs \<open>componentDidUpdate\<close>) when the state has
  changed, and then the callback of \<open>setState\<close> removes the scroll listener, clears
  \<open>isRequesting\<close> and calls \<open>onLoadEnd\<close>.
\<close>

definition readBlobFile_then :: "string \<Rightarrow> Image \<Rightarrow> Image" where
  "readBlobFile_then img s =
     (let s1 = s\<lparr>state_image := img\<rparr>;
          s2 = (if img \<noteq> state_image s then componentDidUpdate s1 else s1);
          s3 = s2\<lparr>scrollListener := False\<rparr>;
          s4 = s3\<lparr>isRequesting := False\<rparr>
      in emit onLoadEnd s4)"

text \<open>The \<open>catch\<close> branch of \<open>handleLoadEnd\<close>.\<close>

definition readBlobFile_catch :: "string \<Rightarrow> Image \<Rightarrow> Image" where
  "readBlobFile_catch err s =
     emit (onError (ReaderError err)) (s\<lparr>isRequesting := False\<rparr>)"

text \<open>The pending promise number \<open>i\<close> settles and its continuation runs.\<close>

definition readerEnd :: "environment \<Rightarrow> nat \<Rightarrow> Image \<Rightarrow> Image" where
  "readerEnd env i s =
     (if i < length (reading s)
      then (let s1 = s\<lparr>reading := take i (reading s) @ drop (Suc i) (reading s)\<rparr>
            in case readBlobFile env (reading s ! i) of
                 Inr img \<Rightarrow> readBlobFile_then img s1
               | Inl err \<Rightarrow> readBlobFile_catch err s1)
      else s)"

section \<open>The request's methods\<close>

text \<open>
  \<open>open\<close>, \<open>send\<close> and \<open>abort\<close> as the XMLHttpRequest standard gives them, with the
  handlers \<open>fetch\<close> has bound: \<open>open\<close> ends a fetch under way without an event and clears
  the response; \<open>send\<close> fires \<open>loadstart\<close> before it returns; \<open>abort\<close> on a request with
  a fetch under way makes the response a network error (status 0) and fires \<open>abort\<close>, then
  \<open>loadend\<close>, before it returns, and does nothing on any other request.
\<close>

definition network_error :: XMLHttpRequest where
  "network_error = \<lparr>status = 0, response = [], inFlight = False\<rparr>"

text \<open>\<open>new XMLHttpRequest()\<close>: nothing sent, no response.\<close>

definition new_XMLHttpRequest :: XMLHttpRequest where
  "new_XMLHttpRequest = \<lparr>status = 0, response = [], inFlight = False\<rparr>"

definition xhr_open :: "string \<Rightarrow> string \<Rightarrow> Image \<Rightarrow> Image" where
  "xhr_open method url s =
     s\<lparr>request := network_error, effects := effects s @ [XhrOpen method url]\<rparr>"

definition xhr_send :: "environment \<Rightarrow> Image \<Rightarrow> Image" where
  "xhr_send env s =
     handleLoadStart (loadstart env)
       (s\<lparr>request := (request s)\<lparr>inFlight := True\<rparr>, effects := effects s @ [XhrSend]\<rparr>)"

definition xhr_abort :: "PropType \<Rightarrow> Image \<Rightarrow> Image" where
  "xhr_abort props s =
     (let s1 = s\<lparr>effects := effects s @ [XhrAbort]\<rparr>
      in if inFlight (request s)
         then handleLoadEnd props (handleAbort (s1\<lparr>request := network_error\<rparr>))
         else s1)"

section \<open>Fetching and the visibility check\<close>

text \<open>
  \<open>fetch\<close>: binding the six handlers is what makes the request's events reach them (in
  \<open>xhr_send\<close>, \<open>xhr_abort\<close> and \<open>step\<close>); then \<open>open\<close> and \<open>send\<close>.
\<close>

definition fetch :: "environment \<Rightarrow> PropType \<Rightarrow> Image \<Rightarrow> Image" where
  "fetch env props s = xhr_send env (xhr_open ''GET'' (source props) s)"

definition amountLoaded :: "Image \<Rightarrow> jsnum" where
  "amountLoaded s =
     js_div (js_mul (Num (real (loaded (progress s)))) (Num 100))
            (Num (real (total (progress s))))"

definition checkViewport :: "environment \<Rightarrow> PropType \<Rightarrow> geometry \<Rightarrow> Image \<Rightarrow> Image" where
  "checkViewport env props g s =
     (if isInViewport (offset props) g \<and> \<not> isRequesting s then fetch env props s
      else if \<not> isInViewport (offset props) g \<and> isRequesting s
      then (if js_lt (amountLoaded s) (minLoaded props) \<or> js_isNaN (amountLoaded s)
            then xhr_abort props s
            else s)
      else s)"

section \<open>The life of an instance\<close>

text \<open>
  A new instance, before it is mounted: the field initialisers of the class. The field
  \<open>request\<close> is assigned in \<open>componentDidMount\<close> and not read before; here it holds a
  request on which nothing was sent.
\<close>

definition new_Image :: "PropType \<Rightarrow> Image" where
  "new_Image props =
     \<lparr>state_image = defaultSource props, isRequesting = False,
      progress = \<lparr>loaded = 0, total = 1\<rparr>, request = new_XMLHttpRequest,
      scrollListener = False, reading = [], effects = []\<rparr>"

definition componentDidMount :: "environment \<Rightarrow> PropType \<Rightarrow> geometry \<Rightarrow> Image \<Rightarrow> Image" where
  "componentDidMount env props g s =
     (let s1 = emit onLayout s;
          s2 = s1\<lparr>request := new_XMLHttpRequest\<rparr>;
          s3 = s2\<lparr>scrollListener := True\<rparr>
      in checkViewport env props g s3)"

definition componentWillUnmount :: "PropType \<Rightarrow> Image \<Rightarrow> Image" where
  "componentWillUnmount props s = xhr_abort props (s\<lparr>scrollListener := False\<rparr>)"

text \<open>
  What happens to a mounted instance: the window scrolls (with the geometry of that
  moment), the transport reports progress, completes with a status and a body, or fails,
  or a pending reader finishes. The transport's events reach the handlers only while a
  fetch is under way, and the fetch is over once it has completed or failed; on
  completion \<open>load\<close> is followed by \<open>loadend\<close>, on failure \<open>error\<close> is followed by
  \<open>loadend\<close> with a network error as the response. The props do not change, and
  \<open>componentWillUnmount\<close> ends the life of the instance.
\<close>

datatype event =
  Scroll geometry | NetProgress progress_event | NetLoad nat string | NetError string
  | ReaderEnd nat

fun step :: "environment \<Rightarrow> PropType \<Rightarrow> event \<Rightarrow> Image \<Rightarrow> Image" where
  "step env props (Scroll g) s =
     (if scrollListener s then checkViewport env props g s else s)"
| "step env props (NetProgress e) s =
     (if inFlight (request s) then handleProgress e s else s)"
| "step env props (NetLoad st body) s =
     (if inFlight (request s)
      then handleLoadEnd props
             (handleLoad (s\<lparr>request := \<lparr>status = st, response = body, inFlight = False\<rparr>\<rparr>))
      else s)"
| "step env props (NetError r) s =
     (if inFlight (request s)
      then handleLoadEnd props (handleError r (s\<lparr>request := network_error\<rparr>))
      else s)"
| "step env props (ReaderEnd i) s = readerEnd env i s"

definition run :: "environment \<Rightarrow> PropType \<Rightarrow> event list \<Rightarrow> Image \<Rightarrow> Image" where
  "run env props es s = foldl (\<lambda>s ev. step env props ev s) s es"


text \<open>The states a mounted instance can reach.\<close>

definition mounted :: "environment \<Rightarrow> PropType \<Rightarrow> geometry \<Rightarrow> event list \<Rightarrow> Image" where
  "mounted env props g es = run env props es (componentDidMount env props g (new_Image props))"

section \<open>Observing an instance\<close>

text \<open>The effects between an earlier state and a later one.\<close>

definition since :: "Image \<Rightarrow> Image \<Rightarrow> effect list" where
  "since s s' = drop (length (effects s)) (effects s')"

fun is_call :: "effect \<Rightarrow> bool" where
  "is_call (Callback c) = False"
| "is_call _ = True"

text \<open>The calls of the request's methods among some effects, and the callbacks among them.\<close>

definition xhr_calls :: "effect list \<Rightarrow> effect list" where
  "xhr_calls es = filter is_call es"

fun callbacks :: "effect list \<Rightarrow> callback list" where
  "callbacks [] = []"
| "callbacks (Callback c # es) = c # callbacks es"
| "callbacks (_ # es) = callbacks es"

fun is_send :: "effect \<Rightarrow> bool" where
  "is_send XhrSend = True"
| "is_send _ = False"

text \<open>The number of requests started: the calls of \<open>send\<close>.\<close>

definition requests_started :: "effect list \<Rightarrow> nat" where
  "requests_started es = length (filter is_send es)"

text \<open>The callbacks that report how a request ended.\<close>

fun terminal :: "callback \<Rightarrow> bool" where
  "terminal (onError e) = True"
| "terminal onAbort = True"
| "terminal onLoadEnd = True"
| "terminal _ = False"

text \<open>The callbacks that report how the conversion of a response ended.\<close>

fun conversion_end :: "callback \<Rightarrow> bool" where
  "conversion_end onLoadEnd = True"
| "conversion_end (onError (ReaderError e)) = True"
| "conversion_end _ = False"

definition successful :: "nat \<Rightarrow> bool" where
  "successful st = (200 \<le> st \<and> st < 300)"

text \<open>
  The blobs a list of events hands to a reader: one for each response with a successful
  status. An image is converted from these events if the reader makes it of one of
  those blobs.
\<close>

fun loads :: "PropType \<Rightarrow> event \<Rightarrow> Blob list" where
  "loads props (NetLoad st body) = (if successful st then [response_blob props body] else [])"
| "loads props _ = []"

definition converted :: "environment \<Rightarrow> PropType \<Rightarrow> event list \<Rightarrow> string \<Rightarrow> bool" where
  "converted env props es img =
     list_ex (\<lambda>b. readBlobFile env b = Inr img) (concat (map (loads props) es))"

text \<open>The image an event delivers: the result of a pending reader that finishes well.\<close>

fun settles :: "environment \<Rightarrow> event \<Rightarrow> Image \<Rightarrow> string option" where
  "settles env (ReaderEnd i) s =
     (if i < length (reading s)
      then (case readBlobFile env (reading s ! i) of
              Inr img \<Rightarrow> Some img
            | Inl err \<Rightarrow> None)
      else None)"
| "settles env _ s = None"

text \<open>
  One request from its start to its end. It starts when the window scrolls with the
  element in the expanded viewport and nothing is being requested; progress events
  follow; then the transport completes (and the reader of the response, if one was
  started, finishes), or the transport fails, or the request's \<open>abort\<close> is called.
\<close>

datatype ending = Completes nat string | Fails string | Aborted

fun finish :: "environment \<Rightarrow> PropType \<Rightarrow> ending \<Rightarrow> Image \<Rightarrow> Image" where
  "finish env props (Completes st body) s =
     step env props (ReaderEnd 0) (step env props (NetLoad st body) s)"
| "finish env props (Fails r) s = step env props (NetError r) s"
| "finish env props Aborted s = xhr_abort props s"

definition lifecycle ::
  "environment \<Rightarrow> PropType \<Rightarrow> geometry \<Rightarrow> progress_event list \<Rightarrow> ending \<Rightarrow> Image \<Rightarrow> Image" where
  "lifecycle env props g ps e s =
     finish env props e (run env props (map NetProgress ps) (step env props (Scroll g) s))"

text \<open>A mounted instance that requests nothing, reads nothing and listens for scrolling.\<close>

definition idle :: "Image \<Rightarrow> bool" where
  "idle s = (scrollListener s \<and> \<not> isRequesting s \<and> \<not> inFlight (request s) \<and> reading s = [])"

fun is_Completes :: "ending \<Rightarrow> bool" where
  "is_Completes (Completes st body) = True"
| "is_Completes _ = False"

fun ending_status :: "ending \<Rightarrow> nat" where
  "ending_status (Completes st body) = st"
| "ending_status _ = 0"

text \<open>
  The callbacks at the end of a request, by the way it ends; \<open>img\<close> is \<open>state.image\<close>
  when the request starts.
\<close>

fun ending_callbacks :: "environment \<Rightarrow> PropType \<Rightarrow> string \<Rightarrow> ending \<Rightarrow> callback list" where
  "ending_callbacks env props img (Completes st body) =
     (if successful st
      then (case readBlobFile env (response_blob props body) of
              Inr new \<Rightarrow> [onLoad] @ (if new \<noteq> img then [onLayout] else []) @ [onLoadEnd]
            | Inl err \<Rightarrow> [onLoad, onError (ReaderError err)])
      else [onLoad])"
| "ending_callbacks env props img (Fails r) = [onError (Error r)]"
| "ending_callbacks env props img Aborted = [onAbort]"

section \<open>The props handed on to the img element\<close>








section \<open>Concrete instances\<close>

text \<open>
  The platform of a browser: \<open>send()\<close> fires \<open>loadstart\<close> with 0 and 0, so that the
  length is not computable. The reader stands for one that succeeds on every blob.
\<close>

definition browser :: environment where
  "browser =
     \<lparr>loadstart = \<lparr>lengthComputable = False, ev_loaded = 0, ev_total = 0\<rparr>,
      readAsDataURL = (\<lambda>b. \<lparr>reader_error = None,
                             reader_result = ''data:'' @ blob_type b @ '','' @ blob_parts b\<rparr>)\<rparr>"

text \<open>The default props with a source, and the same with \<open>minLoaded\<close> set to 0.\<close>

definition kitten :: PropType where
  "kitten =
     \<lparr>offset = Num 0, source = ''kitten.png'', defaultSource = ''spinner'',
      type = ''*'', minLoaded = Num 50\<rparr>"

definition kitten0 :: PropType where
  "kitten0 = kitten\<lparr>minLoaded := Num 0\<rparr>"

text \<open>A progress event with a computable length: 30 of 100 bytes.\<close>

definition thirty_of_100 :: progress_event where
  "thirty_of_100 = \<lparr>lengthComputable = True, ev_loaded = 30, ev_total = 100\<rparr>"

text \<open>A requesting instance whose progress is 30 of 0 bytes.\<close>

definition no_total :: Image where
  "no_total = (new_Image kitten)\<lparr>isRequesting := True, progress := \<lparr>loaded = 30, total = 0\<rparr>\<rparr>"

text \<open>A platform whose reader fails on every blob.\<close>

definition broken_reader :: environment where
  "broken_reader =
     browser\<lparr>readAsDataURL := (\<lambda>b. \<lparr>reader_error = Some ''NotReadableError'',
                                        reader_result = []\<rparr>)\<rparr>"


text \<open>A progress event of a response whose length is not known: 30 bytes so far.\<close>

definition unknown_length :: progress_event where
  "unknown_length = \<lparr>lengthComputable = False, ev_loaded = 30, ev_total = 0\<rparr>"

section \<open>Rounding to a double\<close>

lemma round_even_of_int: "round_even (of_int n) = n"
  by (simp add: round_even_def)

lemma round_even_bounds: "\<lfloor>x\<rfloor> \<le> round_even x" "round_even x \<le> \<lfloor>x\<rfloor> + 1"
  by (simp_all add: round_even_def Let_def)

lemma round_even_mono:
  assumes "x \<le> y"
  shows "round_even x \<le> round_even y"
proof (cases "\<lfloor>x\<rfloor> < \<lfloor>y\<rfloor>")
  case True
  then show ?thesis
    using round_even_bounds(2) [of x] round_even_bounds(1) [of y] by linarith
next
  case False
  then have eq: "\<lfloor>x\<rfloor> = \<lfloor>y\<rfloor>"
    using assms floor_mono [of x y] by linarith
  then show ?thesis
    using assms by (auto simp: round_even_def Let_def)
qed

lemma round_even_le: "x \<le> of_int n \<Longrightarrow> round_even x \<le> n"
  using round_even_mono [of x "of_int n"] by (simp add: round_even_of_int)


lemma ulp_pos: "0 < (2::real) powr of_int (ulp_exponent x)"
  by simp

lemma below_next_binade:
  assumes "0 < x"
  shows "x < (2::real) powr of_int (ulp_exponent x + 53)"
proof -
  have "x < (2::real) powr of_int (\<lfloor>log 2 x\<rfloor> + 1)"
    using floor_log_eq_powr_iff [of x 2 "\<lfloor>log 2 x\<rfloor>"] assms by simp
  also have "\<dots> \<le> (2::real) powr of_int (ulp_exponent x + 53)"
    by (intro powr_mono) (simp_all add: ulp_exponent_def)
  finally show ?thesis .
qed



lemma powr_shift:
  "(2::real) powr of_int (e + 53) = 2 ^ 53 * 2 powr of_int e"
  "(2::real) powr of_int (e + 52) = 2 ^ 52 * 2 powr of_int e"
  by (simp_all add: powr_add)

lemma round_magnitude_upper:
  assumes "0 < x"
  shows "round_magnitude x \<le> 2 powr of_int (ulp_exponent x + 53)"
proof -
  define u where "u = (2::real) powr of_int (ulp_exponent x)"
  have u: "0 < u" by (simp add: u_def)
  have "x < 2 ^ 53 * u"
    using below_next_binade [OF assms] by (simp only: powr_shift u_def)
  then have "x / u \<le> of_int (2 ^ 53)"
    using u by (simp add: pos_divide_le_eq)
  then have "round_even (x / u) \<le> 2 ^ 53"
    by (rule round_even_le)
  then have "real_of_int (round_even (x / u)) \<le> real_of_int (2 ^ 53)"
    by (simp only: of_int_le_iff)
  then have "real_of_int (round_even (x / u)) * u \<le> real_of_int (2 ^ 53) * u"
    using u by (intro mult_right_mono) simp_all
  moreover have "round_magnitude x = real_of_int (round_even (x / u)) * u"
    by (simp add: round_magnitude_def Let_def u_def)
  moreover have "2 powr of_int (ulp_exponent x + 53) = 2 ^ 53 * u"
    by (simp only: powr_shift u_def)
  ultimately show ?thesis by simp
qed







lemma ulp_exponent_eq:
  assumes "(2::real) powr of_int L \<le> x" and "x < 2 powr of_int (L + 1)" and "- 1022 \<le> L"
  shows "ulp_exponent x = L - 52"
proof -
  have "0 < x" using assms(1) by (rule less_le_trans [rotated]) simp
  then have "\<lfloor>log 2 x\<rfloor> = L"
    using floor_log_eq_powr_iff [of x 2 L] assms(1,2) by simp
  then show ?thesis using assms(3) by (simp add: ulp_exponent_def)
qed

text \<open>A number with at most 53 significant bits above the unit in the last place is a double.\<close>

lemma round_magnitude_exact:
  assumes "(2::real) powr of_int L \<le> x" and "x < 2 powr of_int (L + 1)" and "- 1022 \<le> L"
    and "x * 2 powr of_int (52 - L) \<in> \<int>"
  shows "round_magnitude x = x"
proof -
  obtain n where n: "x * 2 powr of_int (52 - L) = of_int n"
    using assms(4) by (auto elim: Ints_cases)
  have e: "ulp_exponent x = L - 52" by (rule ulp_exponent_eq [OF assms(1-3)])
  have inv: "(2::real) powr of_int (L - 52) * 2 powr of_int (52 - L) = 1"
    by (simp add: powr_add [symmetric])
  then have u: "1 / (2::real) powr of_int (L - 52) = 2 powr of_int (52 - L)"
    by (simp add: field_simps)
  have "x / 2 powr of_int (L - 52) = x * (1 / 2 powr of_int (L - 52))"
    by simp
  then have "x / 2 powr of_int (L - 52) = of_int n"
    by (simp only: u n)
  then have "round_magnitude x = of_int n * 2 powr of_int (L - 52)"
    by (simp add: round_magnitude_def Let_def e round_even_of_int)
  also have "\<dots> = x * (2 powr of_int (52 - L) * 2 powr of_int (L - 52))"
    using n by (simp add: mult.assoc)
  also have "\<dots> = x" using inv by (simp add: mult.commute)
  finally show ?thesis .
qed

lemma to_double_int:
  assumes "x \<in> \<int>" and "\<bar>x\<bar> < 2 ^ 53"
  shows "to_double x = Num x"
proof (cases "x = 0")
  case True
  then show ?thesis by (simp add: to_double_def)
next
  case False
  define a where "a = \<bar>x\<bar>"
  have a: "a \<in> \<int>" "1 \<le> a" "a < 2 ^ 53"
    using assms False unfolding a_def
    by (auto elim!: Ints_cases)
  define L where "L = \<lfloor>log 2 a\<rfloor>"
  have bounds: "2 powr of_int L \<le> a" "a < 2 powr of_int (L + 1)"
    using floor_log_eq_powr_iff [of a 2 L] a(2) by (simp_all add: L_def)
  have p0: "(2::real) powr of_int 0 = 1" and p53: "(2::real) powr of_int 53 = 2 ^ 53"
    by simp_all
  have "(2::real) powr of_int 0 < 2 powr of_int (L + 1)"
    using a(2) bounds(2) unfolding p0 by linarith
  then have "real_of_int 0 < real_of_int (L + 1)"
    by (rule powr_less_cancel) simp
  then have L0: "0 \<le> L" by simp
  have "(2::real) powr of_int L < 2 powr of_int 53"
    using bounds(1) a(3) unfolding p53 by linarith
  then have "real_of_int L < real_of_int 53"
    by (rule powr_less_cancel) simp
  then have L52: "L \<le> 52" by simp
  define k where "k = nat (52 - L)"
  have k: "(2::real) powr of_int (52 - L) = 2 ^ k"
    using L52 powr_realpow [of 2 k] by (simp add: k_def)
  have "a * 2 powr of_int (52 - L) \<in> \<int>"
    unfolding k using a(1) by simp
  moreover have "- 1022 \<le> L" using L0 by simp
  ultimately have "round_magnitude a = a"
    using bounds by (intro round_magnitude_exact [of L])
  moreover have "a < 2 ^ 1024"
    using a(3) by (rule less_trans) simp
  moreover have "sgn x * a = x" by (simp add: a_def sgn_mult_abs)
  ultimately show ?thesis
    using False by (simp add: to_double_def a_def [symmetric])
qed

lemma to_double_minus: "to_double (- x) = js_neg (to_double x)"
  by (simp add: to_double_def)

lemma to_double_eval:
  assumes "(2::real) powr of_int L \<le> x" and "x < 2 powr of_int (L + 1)"
    and "- 1022 \<le> L" and "L \<le> 1022"
  shows "to_double x =
           Num (of_int (round_even (x * 2 powr of_int (52 - L))) * 2 powr of_int (L - 52))"
proof -
  have x: "0 < x" using assms(1) by (rule less_le_trans [rotated]) simp
  have e: "ulp_exponent x = L - 52" by (rule ulp_exponent_eq [OF assms(1-3)])
  have inv: "(2::real) powr of_int (L - 52) * 2 powr of_int (52 - L) = 1"
    by (simp add: powr_add [symmetric])
  then have u: "1 / (2::real) powr of_int (L - 52) = 2 powr of_int (52 - L)"
    by (simp add: field_simps)
  have "x / 2 powr of_int (L - 52) = x * (1 / 2 powr of_int (L - 52))"
    by simp
  then have d: "x / 2 powr of_int (L - 52) = x * 2 powr of_int (52 - L)"
    by (simp only: u)
  have m: "round_magnitude x =
      of_int (round_even (x * 2 powr of_int (52 - L))) * 2 powr of_int (L - 52)"
    by (simp only: round_magnitude_def Let_def e d)
  have "round_magnitude x \<le> 2 powr of_int (ulp_exponent x + 53)"
    by (rule round_magnitude_upper [OF x])
  also have "\<dots> \<le> 2 powr of_int 1023"
    using assms(4) by (intro powr_mono) (simp_all add: e)
  also have "\<dots> < 2 ^ 1024" by simp
  finally have "\<not> 2 ^ 1024 \<le> round_magnitude \<bar>x\<bar>" using x by simp
  then have "to_double x = Num (round_magnitude x)"
    using x by (simp add: to_double_def)
  then show ?thesis by (simp only: m)
qed

lemma to_double_scaled_up:
  assumes "2 ^ 52 \<le> x * 2 ^ k" and "x * 2 ^ k < 2 ^ 53" and "k \<le> 1074"
  shows "to_double x = Num (of_int (round_even (x * 2 ^ k)) / 2 ^ k)"
proof -
  define L where "L = 52 - int k"
  have up: "(2::real) powr of_int (52 - L) = 2 ^ k"
    using powr_realpow [of 2 k] by (simp add: L_def)
  have down: "(2::real) powr of_int (L - 52) = 1 / 2 ^ k"
    using powr_realpow [of 2 k] by (simp add: L_def powr_minus inverse_eq_divide)
  have "(2::real) powr of_int L * 2 ^ k = 2 powr of_int (L + int k)"
    using powr_realpow [of 2 k] by (simp add: powr_add)
  then have a: "(2::real) powr of_int L * 2 ^ k = 2 ^ 52"
    using powr_realpow [of 2 52] by (simp add: L_def)
  have "(2::real) powr of_int (L + 1) * 2 ^ k = 2 powr of_int (L + 1 + int k)"
    using powr_realpow [of 2 k] by (simp add: powr_add)
  then have b: "(2::real) powr of_int (L + 1) * 2 ^ k = 2 ^ 53"
    using powr_realpow [of 2 53] by (simp add: L_def)
  have "2 powr of_int L * 2 ^ k \<le> x * 2 ^ k" "x * 2 ^ k < 2 powr of_int (L + 1) * 2 ^ k"
    using assms(1,2) by (simp_all only: a b)
  then have "2 powr of_int L \<le> x" "x < 2 powr of_int (L + 1)"
    by simp_all
  moreover have "- 1022 \<le> L" "L \<le> 1022" using assms(3) by (simp_all add: L_def)
  ultimately have "to_double x =
      Num (of_int (round_even (x * 2 powr of_int (52 - L))) * 2 powr of_int (L - 52))"
    by (rule to_double_eval)
  then show ?thesis by (simp only: up down) simp
qed

lemma to_double_scaled_down:
  assumes "2 ^ 52 \<le> x / 2 ^ j" and "x / 2 ^ j < 2 ^ 53" and "j \<le> 970"
  shows "to_double x = Num (of_int (round_even (x / 2 ^ j)) * 2 ^ j)"
proof -
  define L where "L = 52 + int j"
  have up: "(2::real) powr of_int (L - 52) = 2 ^ j"
    using powr_realpow [of 2 j] by (simp add: L_def)
  have down: "(2::real) powr of_int (52 - L) = 1 / 2 ^ j"
    using powr_realpow [of 2 j] by (simp add: L_def powr_minus inverse_eq_divide)
  have "(2::real) powr of_int L = 2 powr of_int 52 * 2 powr of_int (int j)"
    by (simp add: L_def powr_add)
  then have a: "(2::real) powr of_int L = 2 ^ 52 * 2 ^ j"
    using powr_realpow [of 2 j] by simp
  have "(2::real) powr of_int (L + 1) = 2 powr of_int 53 * 2 powr of_int (int j)"
    by (simp add: L_def powr_add)
  then have b: "(2::real) powr of_int (L + 1) = 2 ^ 53 * 2 ^ j"
    using powr_realpow [of 2 j] by simp
  have "2 powr of_int L \<le> x" "x < 2 powr of_int (L + 1)"
    using assms(1,2) unfolding a b by (simp_all add: pos_le_divide_eq pos_divide_less_eq)
  moreover have "- 1022 \<le> L" "L \<le> 1022" using assms(3) by (simp_all add: L_def)
  ultimately have "to_double x =
      Num (of_int (round_even (x * 2 powr of_int (52 - L))) * 2 powr of_int (L - 52))"
    by (rule to_double_eval)
  then show ?thesis by (simp only: up down) simp
qed

text \<open>
  Rounding at work: \<open>1 * 100 / 3\<close> is rounded up to 33.333333333333336, the product
  \<open>9007199254740991 * 100\<close> is rounded down to a multiple of 128, and \<open>600 + 0.3\<close> is
  the double 600.3.
\<close>

lemma one_third_percent:
  "js_div (js_mul (Num 1) (Num 100)) (Num 3) = Num (4691249611844267 / 2 ^ 47)"
  using to_double_scaled_up [of "100 / 3" 47]
  by (simp add: to_double_int round_even_def)

lemma large_product:
  "js_mul (Num 9007199254740991) (Num 100) = Num 900719925474099072"
  using to_double_scaled_down [of "900719925474099100" 7]
  by (simp add: round_even_def)

lemma three_tenths_double: "to_double three_tenths = Num three_tenths"
  using to_double_scaled_up [of three_tenths 54]
  by (simp add: three_tenths_def round_even_def)

lemma six_hundred_and_three_tenths:
  "to_double (600 + three_tenths) = Num (5280294641231462 / 2 ^ 43)"
  using to_double_scaled_up [of "600 + three_tenths" 43]
  by (simp add: three_tenths_def round_even_def)



section \<open>The viewport test: monotonicity and reflection\<close>






lemmas geometry_eval =
  isInViewport_def reflect_def mirror_def box_def viewportHeight_def viewportWidth_def
  js_or_def js_ge_def js_sub_def finite_geometry_def off_border_def exact_border_def
  to_double_int

text \<open>
  Where a border is rounded, the reflection can change the result although no edge lies
  on the border: with offset 0.3 in a 600 by 600 window, \<open>near_edge\<close> is in the
  viewport, and its reflection, whose left edge 600.3 equals the rounded sum
  \<open>600 + 0.3\<close>, is not.
\<close>

lemma reflect_rounding:
  "finite_geometry near_edge \<and> off_border (Num three_tenths) near_edge \<and>
   \<not> exact_border (Num three_tenths) near_edge \<and>
   isInViewport (Num three_tenths) near_edge \<and>
   \<not> isInViewport (Num three_tenths) (reflect near_edge)"
  by (simp add: near_edge_def isInViewport_def reflect_def mirror_def viewportHeight_def
      viewportWidth_def js_or_def js_ge_def js_sub_def finite_geometry_def off_border_def
      exact_border_def to_double_minus three_tenths_double six_hundred_and_three_tenths)
    (simp add: three_tenths_def)




section \<open>What the handlers and the request's methods do\<close>

lemmas handler_defs =
  emit_def handleLoadStart_def handleProgress_def handleLoad_def handleLoadEnd_def
  handleError_def handleAbort_def xhr_open_def xhr_send_def xhr_abort_def fetch_def
  network_error_def new_XMLHttpRequest_def

lemmas eval_defs =
  mounted_def run_def componentDidMount_def new_Image_def checkViewport_def handler_defs
  readerEnd_def readBlobFile_def readBlobFile_then_def readBlobFile_catch_def
  componentDidUpdate_def amountLoaded_def since_def xhr_calls_def
  browser_def kitten_def kitten0_def thirty_of_100_def unknown_length_def geometry_eval
  Let_def signed_inf_def lifecycle_def idle_def successful_def
  converted_def response_blob_def no_total_def broken_reader_def

lemma fetch_eq:
  "fetch env props s =
     s\<lparr>isRequesting := True,
       progress := (if lengthComputable (loadstart env)
                    then (progress s)\<lparr>loaded := 0, total := ev_total (loadstart env)\<rparr>
                    else progress s),
       request := \<lparr>status = 0, response = [], inFlight = True\<rparr>,
       effects := effects s @ [XhrOpen ''GET'' (source props), XhrSend, Callback onLoadStart]\<rparr>"
  by (simp add: handler_defs Let_def)

lemma xhr_abort_eq:
  "xhr_abort props s =
     (if inFlight (request s)
      then s\<lparr>isRequesting := False, request := network_error,
             effects := effects s @ [XhrAbort, Callback onAbort]\<rparr>
      else s\<lparr>effects := effects s @ [XhrAbort]\<rparr>)"
  by (simp add: handler_defs Let_def)

lemma handleProgress_eq:
  "handleProgress event s =
     s\<lparr>progress := (if lengthComputable event
                     then (progress s)\<lparr>loaded := ev_loaded event\<rparr>
                     else progress s),
       effects := effects s @ [Callback onProgress]\<rparr>"
  by (simp add: handler_defs)









section \<open>The visibility check\<close>




section \<open>Starting a transfer and progress\<close>

text \<open>
  C7, as stated, fails: after a request that loaded 30 bytes and then failed, the next
  start leaves \<open>progress\<close> at 30 of 1; it is not reset to 0 of 1.
\<close>

theorem fetch_reset_counterexample:
  "\<not> isRequesting
       (mounted browser kitten (box 0 0) [NetProgress thirty_of_100, NetError ''x'']) \<and>
   \<not> inFlight (request
       (mounted browser kitten (box 0 0) [NetProgress thirty_of_100, NetError ''x''])) \<and>
   progress (fetch browser kitten
       (mounted browser kitten (box 0 0) [NetProgress thirty_of_100, NetError ''x'']))
     = \<lparr>loaded = 30, total = 1\<rparr>"
  by (simp add: eval_defs)

text \<open>
  C7, amended: every start of a transfer sets \<open>isRequesting\<close>, puts a fetch under way
  and emits \<open>onLoadStart\<close> after \<open>open\<close> and \<open>send\<close>; it sets \<open>progress\<close> to 0 of the
  event's total when the \<open>loadstart\<close> event has a computable length and leaves
  \<open>progress\<close> as it was otherwise.
\<close>

theorem fetch_starts:
  "isRequesting (fetch env props s) \<and> inFlight (request (fetch env props s)) \<and>
   since s (fetch env props s) =
     [XhrOpen ''GET'' (source props), XhrSend, Callback onLoadStart] \<and>
   progress (fetch env props s) =
     (if lengthComputable (loadstart env)
      then \<lparr>loaded = 0, total = ev_total (loadstart env)\<rparr>
      else progress s)"
  by (simp add: fetch_eq since_def)

text \<open>
  C8 at a progress event of 30 of 100 bytes with a computable length, on a new
  instance: \<open>handleProgress\<close> stores the 30 and leaves \<open>progress.total\<close> at 1.
\<close>

theorem handleProgress_total_unchanged:
  "progress (handleProgress thirty_of_100 (new_Image kitten)) = \<lparr>loaded = 30, total = 1\<rparr> \<and>
   since (new_Image kitten) (handleProgress thirty_of_100 (new_Image kitten)) =
     [Callback onProgress]"
  by (simp add: eval_defs)

section \<open>A response with an unsuccessful status\<close>

text \<open>
  C4, as stated, fails: when the transport completes with status 404, the instance has
  called \<open>onLayout\<close>, \<open>onLoadStart\<close> and \<open>onLoad\<close>, and never \<open>onError\<close>.
\<close>

theorem not_found_counterexample:
  "effects (mounted browser kitten (box 0 0) [NetLoad 404 ''Not Found'']) =
     [Callback onLayout, XhrOpen ''GET'' ''kitten.png'', XhrSend, Callback onLoadStart,
      Callback onLoad]"
  by (simp add: eval_defs)

text \<open>
  C4, amended: when the transport completes with a status outside 200 to 299, the only
  callback is \<open>onLoad\<close>, from the load handler, which also clears \<open>isRequesting\<close>;
  \<open>handleLoadEnd\<close> changes nothing and calls nothing, no reader is started, and
  \<open>state.image\<close> is unchanged.
\<close>

theorem unsuccessful_status_silent:
  assumes "inFlight (request s)" and "\<not> successful st"
  shows "since s (step env props (NetLoad st body) s) = [Callback onLoad] \<and>
         \<not> isRequesting (step env props (NetLoad st body) s) \<and>
         state_image (step env props (NetLoad st body) s) = state_image s \<and>
         reading (step env props (NetLoad st body) s) = reading s \<and>
         handleLoadEnd props (s\<lparr>request := (request s)\<lparr>status := st\<rparr>\<rparr>) =
           s\<lparr>request := (request s)\<lparr>status := st\<rparr>\<rparr>"
  using assms by (auto simp: handler_defs successful_def since_def response_blob_def)

theorem unsuccessful_status_silent_witness:
  "inFlight (request (mounted browser kitten (box 0 0) [])) \<and> \<not> successful 404 \<and>
   since (mounted browser kitten (box 0 0) [])
     (step browser kitten (NetLoad 404 ''Not Found'') (mounted browser kitten (box 0 0) []))
     = [Callback onLoad] \<and>
   \<not> isRequesting
     (step browser kitten (NetLoad 404 ''Not Found'') (mounted browser kitten (box 0 0) []))"
  using unsuccessful_status_silent
    [of "mounted browser kitten (box 0 0) []" 404 browser kitten "''Not Found''"]
  by (simp add: eval_defs)

section \<open>Runs of a mounted instance\<close>

lemma run_snoc: "run env props (es @ [e]) s = step env props e (run env props es s)"
  by (simp add: run_def)

lemma mounted_snoc:
  "mounted env props g (es @ [e]) = step env props e (mounted env props g es)"
  by (simp add: mounted_def run_snoc)

lemma mounted_Nil:
  "state_image (mounted env props g []) = defaultSource props"
  "reading (mounted env props g []) = []"
  "isRequesting (mounted env props g []) \<longrightarrow> inFlight (request (mounted env props g []))"
  by (simp_all add: mounted_def run_def componentDidMount_def new_Image_def
      new_XMLHttpRequest_def checkViewport_def fetch_eq xhr_abort_eq emit_def Let_def)

lemma handleLoadEnd_eq:
  "handleLoadEnd props s =
     (if successful (status (request s))
      then s\<lparr>reading := reading s @ [response_blob props (response (request s))]\<rparr>
      else s)"
  by (simp add: handleLoadEnd_def successful_def)

section \<open>A request whose length is never reported\<close>









section \<open>The flag isRequesting\<close>

lemma step_isRequesting:
  assumes "isRequesting s \<longrightarrow> inFlight (request s)"
  shows "isRequesting (step env props ev s) \<longrightarrow> inFlight (request (step env props ev s))"
proof (cases ev)
  case (ReaderEnd i)
  then show ?thesis
    using assms
    by (auto simp: readerEnd_def readBlobFile_then_def readBlobFile_catch_def
        componentDidUpdate_def emit_def Let_def split: sum.splits)
qed (use assms in \<open>auto simp: checkViewport_def fetch_eq xhr_abort_eq handler_defs\<close>)

text \<open>In every state of a mounted instance, \<open>isRequesting\<close> is true only while a fetch is under way.\<close>

lemma isRequesting_inFlight:
  "isRequesting (mounted env props g es) \<longrightarrow> inFlight (request (mounted env props g es))"
proof (induction es rule: rev_induct)
  case Nil
  show ?case by (rule mounted_Nil)
next
  case (snoc e es)
  then show ?case by (simp add: mounted_snoc step_isRequesting)
qed

text \<open>
  C6 on a run of a mounted instance: the transport completes with status 200, the window
  scrolls while the response is being read, so that a second fetch starts, and then the
  reader of the first response finishes. A fetch is under way and \<open>isRequesting\<close> is
  false.
\<close>

theorem isRequesting_race:
  "inFlight (request (mounted browser kitten (box 0 0)
      [NetLoad 200 ''abc'', Scroll (box 0 0), ReaderEnd 0])) \<and>
   \<not> isRequesting (mounted browser kitten (box 0 0)
      [NetLoad 200 ''abc'', Scroll (box 0 0), ReaderEnd 0])"
  by (simp add: eval_defs)

section \<open>The image on display\<close>

lemma readerEnd_state_image:
  "state_image (readerEnd env i s) =
     (case settles env (ReaderEnd i) s of Some img \<Rightarrow> img | None \<Rightarrow> state_image s)"
  by (simp add: readerEnd_def readBlobFile_then_def readBlobFile_catch_def
      componentDidUpdate_def emit_def Let_def split: sum.splits)

lemma step_state_image:
  "state_image (step env props ev s) =
     (case settles env ev s of Some img \<Rightarrow> img | None \<Rightarrow> state_image s)"
proof (cases ev)
  case (ReaderEnd i)
  then show ?thesis by (simp only: step.simps readerEnd_state_image)
qed (simp_all add: checkViewport_def fetch_eq xhr_abort_eq handler_defs)

lemma readerEnd_reading: "set (reading (readerEnd env i s)) \<subseteq> set (reading s)"
  by (auto simp: readerEnd_def readBlobFile_then_def readBlobFile_catch_def
      componentDidUpdate_def emit_def Let_def split: sum.splits
      dest: in_set_takeD in_set_dropD)

text \<open>A step adds to the pending readers at most the blob of a successful response.\<close>

lemma step_reading:
  "set (reading (step env props ev s)) \<subseteq> set (reading s) \<union> set (loads props ev)"
proof (cases ev)
  case (ReaderEnd i)
  then show ?thesis using readerEnd_reading [of env i s] by auto
qed (auto simp: checkViewport_def fetch_eq xhr_abort_eq handleLoadEnd_eq handleLoad_def
      handleError_def handleProgress_def emit_def network_error_def successful_def)

lemma mounted_reading:
  "set (reading (mounted env props g es)) \<subseteq> set (concat (map (loads props) es))"
proof (induction es rule: rev_induct)
  case Nil
  show ?case by (simp add: mounted_Nil)
next
  case (snoc e es)
  then show ?case
    using step_reading [of env props e "mounted env props g es"]
    by (auto simp: mounted_snoc)
qed

lemma mounted_state_image:
  "state_image (mounted env props g es) = defaultSource props \<or>
   converted env props es (state_image (mounted env props g es))"
proof (induction es rule: rev_induct)
  case Nil
  show ?case by (simp add: mounted_Nil)
next
  case (snoc e es)
  let ?s = "mounted env props g es"
  show ?case
  proof (cases "settles env e ?s")
    case None
    then have "state_image (mounted env props g (es @ [e])) = state_image ?s"
      by (simp add: mounted_snoc step_state_image)
    with snoc show ?thesis
      by (auto simp: converted_def list_ex_iff)
  next
    case (Some img)
    then obtain i where e: "e = ReaderEnd i" and i: "i < length (reading ?s)"
      and img: "readBlobFile env (reading ?s ! i) = Inr img"
      by (cases e) (auto split: if_splits sum.splits)
    from i have "reading ?s ! i \<in> set (concat (map (loads props) es))"
      using mounted_reading [of env props g es] nth_mem by blast
    with img have "converted env props (es @ [e]) img"
      by (auto simp: converted_def list_ex_iff)
    moreover have "state_image (mounted env props g (es @ [e])) = img"
      using Some by (simp add: mounted_snoc step_state_image)
    ultimately show ?thesis by simp
  qed
qed

text \<open>
  C5: in every state a mounted instance can reach, \<open>state.image\<close> is the default source
  or what the reader made of the response of a transfer that completed with a successful
  status. A step changes \<open>state.image\<close> only when a pending reader finishes well, to
  that reader's result: no scroll (which may abort the request), progress event, failure
  of the transport, completion of the transport, failing reader, call of \<open>abort\<close> or
  unmounting changes it.
\<close>

theorem state_image_origin:
  "(state_image (mounted env props g es) = defaultSource props \<or>
    converted env props es (state_image (mounted env props g es))) \<and>
   state_image (step env props ev s) =
     (case settles env ev s of Some img \<Rightarrow> img | None \<Rightarrow> state_image s) \<and>
   state_image (xhr_abort props s) = state_image s \<and>
   state_image (componentWillUnmount props s) = state_image s"
  using mounted_state_image step_state_image
  by (simp add: xhr_abort_eq componentWillUnmount_def)

theorem state_image_origin_witness:
  "state_image (mounted browser kitten (box 0 0) [NetLoad 200 ''abc'', ReaderEnd 0]) =
     ''data:image/*,abc'' \<and>
   state_image (mounted browser kitten (box 0 0) [NetLoad 200 ''abc'', ReaderEnd 0]) \<noteq>
     defaultSource kitten \<and>
   converted browser kitten [NetLoad 200 ''abc'', ReaderEnd 0] ''data:image/*,abc'' \<and>
   state_image (mounted browser kitten (box 0 0) [NetLoad 404 ''abc'', ReaderEnd 0]) =
     defaultSource kitten"
  using state_image_origin [of browser kitten "box 0 0" "[NetLoad 200 ''abc'', ReaderEnd 0]"]
  by (simp add: eval_defs)

section \<open>One request from its start to its end\<close>

lemma callbacks_append: "callbacks (xs @ ys) = callbacks xs @ callbacks ys"
  by (induction xs rule: callbacks.induct) simp_all

lemma callbacks_replicate: "callbacks (replicate n (Callback c)) = replicate n c"
  by (induction n) simp_all

lemma since_trans:
  assumes "effects s1 = effects s @ xs" and "effects s2 = effects s1 @ ys"
  shows "since s s2 = xs @ since s1 s2"
  using assms by (simp add: since_def)

text \<open>Progress events change neither the request nor the flag, the readers or the image.\<close>

lemma run_progress:
  assumes "inFlight (request s)"
  shows "request (run env props (map NetProgress ps) s) = request s \<and>
         isRequesting (run env props (map NetProgress ps) s) = isRequesting s \<and>
         reading (run env props (map NetProgress ps) s) = reading s \<and>
         state_image (run env props (map NetProgress ps) s) = state_image s \<and>
         effects (run env props (map NetProgress ps) s) =
           effects s @ replicate (length ps) (Callback onProgress)"
  using assms
proof (induction ps rule: rev_induct)
  case Nil
  then show ?case by (simp add: run_def)
next
  case (snoc p ps)
  then show ?case
    by (simp add: run_snoc handleProgress_eq replicate_append_same)
qed

lemma finish_callbacks:
  assumes "inFlight (request s)" and "reading s = []"
  shows "callbacks (since s (finish env props e s)) =
           ending_callbacks env props (state_image s) e"
proof (cases e)
  case (Completes st body)
  show ?thesis
  proof (cases "successful st")
    case True
    with assms Completes show ?thesis
      by (simp add: handleLoadEnd_eq handleLoad_def emit_def since_def readerEnd_def
          readBlobFile_then_def readBlobFile_catch_def componentDidUpdate_def Let_def
          split: sum.splits)
  next
    case False
    with assms Completes show ?thesis
      by (simp add: handleLoadEnd_eq handleLoad_def emit_def since_def readerEnd_def)
  qed
next
  case (Fails r)
  with assms show ?thesis by (simp add: handler_defs since_def)
next
  case Aborted
  with assms show ?thesis by (simp add: xhr_abort_eq since_def)
qed

lemma finish_extends: "\<exists>ys. effects (finish env props e s) = effects s @ ys"
proof (cases e)
  case (Completes st body)
  then show ?thesis
    by (auto simp: handler_defs readerEnd_def readBlobFile_then_def readBlobFile_catch_def
        componentDidUpdate_def Let_def split: sum.splits)
next
  case (Fails r)
  then show ?thesis by (simp add: handler_defs)
next
  case Aborted
  then show ?thesis by (simp add: xhr_abort_eq)
qed

text \<open>The callbacks of one request, in order.\<close>

lemma lifecycle_callbacks:
  assumes "idle s" and "isInViewport (offset props) g"
  shows "callbacks (since s (lifecycle env props g ps e s)) =
           onLoadStart # replicate (length ps) onProgress @
           ending_callbacks env props (state_image s) e"
proof -
  define s1 where "s1 = step env props (Scroll g) s"
  define s2 where "s2 = run env props (map NetProgress ps) s1"
  have "s1 = fetch env props s"
    using assms by (simp add: s1_def idle_def checkViewport_def)
  then have fl: "inFlight (request s1)" "reading s1 = []" "state_image s1 = state_image s"
    "effects s1 = effects s @ [XhrOpen ''GET'' (source props), XhrSend, Callback onLoadStart]"
    using assms(1) by (simp_all add: fetch_eq idle_def)
  note rp = run_progress [OF fl(1), of env props ps, folded s2_def]
  have s2: "inFlight (request s2)" "reading s2 = []" "state_image s2 = state_image s"
    using rp fl by simp_all
  have e2: "effects s2 =
      effects s @ ([XhrOpen ''GET'' (source props), XhrSend, Callback onLoadStart]
                   @ replicate (length ps) (Callback onProgress))"
    using rp fl(4) by simp
  obtain ys where ys: "effects (finish env props e s2) = effects s2 @ ys"
    using finish_extends by blast
  have lc: "lifecycle env props g ps e s = finish env props e s2"
    by (simp only: lifecycle_def s1_def s2_def)
  have "since s (finish env props e s2) =
          ([XhrOpen ''GET'' (source props), XhrSend, Callback onLoadStart]
           @ replicate (length ps) (Callback onProgress)) @ since s2 (finish env props e s2)"
    by (rule since_trans [OF e2 ys])
  then show ?thesis
    using finish_callbacks [OF s2(1) s2(2), of env props e]
    by (simp add: lc callbacks_append callbacks_replicate s2(3))
qed

lemma count_list_replicate_other: "c \<noteq> d \<Longrightarrow> count_list (replicate n d) c = 0"
  by (induction n) simp_all

lemma takeWhile_replicate_all:
  "P d \<Longrightarrow> takeWhile P (replicate n d @ xs) = replicate n d @ takeWhile P xs"
  by (induction n) simp_all

text \<open>
  Every run: the callbacks that end a request, the pending readers and the request under
  way together never outnumber the requests started.
\<close>

lemma readerEnd_accounted:
  assumes "i < length (reading s)"
  shows "length (filter terminal (callbacks (effects (readerEnd env i s)))) =
           Suc (length (filter terminal (callbacks (effects s))))"
    and "length (filter conversion_end (callbacks (effects (readerEnd env i s)))) =
           Suc (length (filter conversion_end (callbacks (effects s))))"
    and "Suc (length (reading (readerEnd env i s))) = length (reading s)"
    and "request (readerEnd env i s) = request s"
    and "requests_started (effects (readerEnd env i s)) = requests_started (effects s)"
    and "count_list (callbacks (effects (readerEnd env i s))) onLoad =
           count_list (callbacks (effects s)) onLoad"
  using assms
  by (auto simp: readerEnd_def readBlobFile_then_def readBlobFile_catch_def
      componentDidUpdate_def emit_def Let_def callbacks_append requests_started_def
      split: sum.splits)

lemma step_accounted:
  assumes "length (filter terminal (callbacks (effects s))) + length (reading s) +
             (if inFlight (request s) then 1 else 0) \<le> requests_started (effects s)"
  shows "length (filter terminal (callbacks (effects (step env props ev s)))) +
           length (reading (step env props ev s)) +
           (if inFlight (request (step env props ev s)) then 1 else 0)
         \<le> requests_started (effects (step env props ev s))"
proof (cases ev)
  case (ReaderEnd i)
  show ?thesis
  proof (cases "i < length (reading s)")
    case True
    with assms ReaderEnd show ?thesis
      using readerEnd_accounted(1,3,4,5) [OF True, of env] by simp
  next
    case False
    with assms ReaderEnd show ?thesis by (simp add: readerEnd_def)
  qed
qed (use assms in \<open>auto simp: checkViewport_def fetch_eq xhr_abort_eq handleProgress_eq
      handleLoadEnd_eq handleLoad_def handleError_def emit_def network_error_def
      callbacks_append requests_started_def successful_def\<close>)

lemma step_conversions:
  assumes "length (filter conversion_end (callbacks (effects s))) + length (reading s)
             \<le> count_list (callbacks (effects s)) onLoad"
  shows "length (filter conversion_end (callbacks (effects (step env props ev s)))) +
           length (reading (step env props ev s))
         \<le> count_list (callbacks (effects (step env props ev s))) onLoad"
proof (cases ev)
  case (ReaderEnd i)
  show ?thesis
  proof (cases "i < length (reading s)")
    case True
    with assms ReaderEnd show ?thesis
      using readerEnd_accounted(2,3,6) [OF True, of env] by simp
  next
    case False
    with assms ReaderEnd show ?thesis by (simp add: readerEnd_def)
  qed
qed (use assms in \<open>auto simp: checkViewport_def fetch_eq xhr_abort_eq handleProgress_eq
      handleLoadEnd_eq handleLoad_def handleError_def emit_def network_error_def
      callbacks_append successful_def\<close>)

lemma mounted_accounted:
  "length (filter terminal (callbacks (effects (mounted env props g es)))) +
     length (reading (mounted env props g es)) +
     (if inFlight (request (mounted env props g es)) then 1 else 0)
   \<le> requests_started (effects (mounted env props g es))"
proof (induction es rule: rev_induct)
  case Nil
  show ?case
    by (simp add: mounted_def run_def componentDidMount_def new_Image_def
        new_XMLHttpRequest_def checkViewport_def fetch_eq xhr_abort_eq emit_def Let_def
        requests_started_def)
next
  case (snoc e es)
  then show ?case by (simp only: mounted_snoc step_accounted)
qed

lemma mounted_conversions:
  "length (filter conversion_end (callbacks (effects (mounted env props g es)))) +
     length (reading (mounted env props g es))
   \<le> count_list (callbacks (effects (mounted env props g es))) onLoad"
proof (induction es rule: rev_induct)
  case Nil
  show ?case
    by (simp add: mounted_def run_def componentDidMount_def new_Image_def
        new_XMLHttpRequest_def checkViewport_def fetch_eq xhr_abort_eq emit_def Let_def)
next
  case (snoc e es)
  then show ?case by (simp only: mounted_snoc step_conversions)
qed

text \<open>
  A request can end without any of the three callbacks and without a response: here the
  reader of the first response fails while a second request is under way, and the next
  scroll opens a third request on the same object, which ends the second one silently.
\<close>

lemma superseded_request:
  "effects (mounted broken_reader kitten (box 0 0)
      [NetLoad 200 ''abc'', Scroll (box 0 0), ReaderEnd 0, Scroll (box 0 0)]) =
     [Callback onLayout,
      XhrOpen ''GET'' ''kitten.png'', XhrSend, Callback onLoadStart, Callback onLoad,
      XhrOpen ''GET'' ''kitten.png'', XhrSend, Callback onLoadStart,
      Callback (onError (ReaderError ''NotReadableError'')),
      XhrOpen ''GET'' ''kitten.png'', XhrSend, Callback onLoadStart]"
  by (simp add: eval_defs)

text \<open>
  C2, as stated, fails: a request whose transport completes with status 404 calls
  \<open>onLoadStart\<close> and \<open>onLoad\<close> and none of \<open>onError\<close>, \<open>onAbort\<close> and \<open>onLoadEnd\<close>;
  and on a request that succeeds, \<open>onLoad\<close> comes before \<open>onLoadEnd\<close>, not after it.
\<close>

theorem lifecycle_counterexample:
  "idle (mounted browser kitten (box 0 5000) []) \<and>
   isInViewport (offset kitten) (box 0 0) \<and>
   callbacks (since (mounted browser kitten (box 0 5000) [])
     (lifecycle browser kitten (box 0 0) [] (Completes 404 ''Not Found'')
        (mounted browser kitten (box 0 5000) []))) = [onLoadStart, onLoad] \<and>
   callbacks (since (mounted browser kitten (box 0 5000) [])
     (lifecycle browser kitten (box 0 0) [] (Completes 200 ''abc'')
        (mounted browser kitten (box 0 5000) []))) =
     [onLoadStart, onLoad, onLayout, onLoadEnd]"
  by (simp add: eval_defs)

text \<open>
  C2, amended. In every state a mounted instance can reach, the calls of \<open>onError\<close>,
  \<open>onAbort\<close> and \<open>onLoadEnd\<close> so far, the pending conversions and the request under way
  together do not outnumber the requests started, so that no request has more than one
  of these calls; and the calls of \<open>onLoadEnd\<close> and of \<open>onError\<close> for a failed
  conversion, with the pending conversions, do not outnumber the calls of \<open>onLoad\<close> so
  far, so that each of them has an \<open>onLoad\<close> of its own before it. A request that starts
  on an idle instance and runs to its end with no other scroll event gets at most one
  of the three calls, and none exactly when its transport completes with a status
  outside 200 to 299; when its transport completes, \<open>onLoad\<close> is called exactly once,
  and before it none of the three.
\<close>

theorem lifecycle_terminal_callbacks:
  "length (filter terminal (callbacks (effects (mounted env props g es)))) +
     length (reading (mounted env props g es)) +
     (if inFlight (request (mounted env props g es)) then 1 else 0)
   \<le> requests_started (effects (mounted env props g es)) \<and>
   length (filter conversion_end (callbacks (effects (mounted env props g es)))) +
     length (reading (mounted env props g es))
   \<le> count_list (callbacks (effects (mounted env props g es))) onLoad \<and>
   (idle s \<and> isInViewport (offset props) g' \<longrightarrow>
      length (filter terminal (callbacks (since s (lifecycle env props g' ps e s)))) \<le> 1 \<and>
      (filter terminal (callbacks (since s (lifecycle env props g' ps e s))) = [] \<longleftrightarrow>
         is_Completes e \<and> \<not> successful (ending_status e)) \<and>
      (is_Completes e \<longrightarrow>
         count_list (callbacks (since s (lifecycle env props g' ps e s))) onLoad = 1 \<and>
         filter terminal (takeWhile (\<lambda>c. c \<noteq> onLoad)
           (callbacks (since s (lifecycle env props g' ps e s)))) = []))"
proof (intro conjI impI)
  assume a: "idle s \<and> isInViewport (offset props) g'"
  then have i: "idle s" and v: "isInViewport (offset props) g'" by simp_all
  note lc = lifecycle_callbacks [OF i v, of env ps e]
  show "length (filter terminal (callbacks (since s (lifecycle env props g' ps e s)))) \<le> 1"
    unfolding lc by (cases e) (simp_all split: sum.splits)
  show "filter terminal (callbacks (since s (lifecycle env props g' ps e s))) = [] \<longleftrightarrow>
         is_Completes e \<and> \<not> successful (ending_status e)"
    unfolding lc by (cases e) (simp_all split: sum.splits)
  show "count_list (callbacks (since s (lifecycle env props g' ps e s))) onLoad = 1"
    if "is_Completes e"
    using that unfolding lc
    by (cases e) (simp_all add: count_list_replicate_other split: sum.splits)
  show "filter terminal (takeWhile (\<lambda>c. c \<noteq> onLoad)
           (callbacks (since s (lifecycle env props g' ps e s)))) = []"
    if "is_Completes e"
    using that unfolding lc
    by (cases e) (simp_all add: takeWhile_replicate_all split: sum.splits)
qed (rule mounted_accounted mounted_conversions)+

theorem lifecycle_terminal_callbacks_witness:
  "idle (mounted browser kitten (box 0 5000) []) \<and>
   isInViewport (offset kitten) (box 0 0) \<and>
   is_Completes (Completes 200 ''abc'') \<and>
   filter terminal (callbacks (since (mounted browser kitten (box 0 5000) [])
     (lifecycle browser kitten (box 0 0) [thirty_of_100] (Completes 200 ''abc'')
        (mounted browser kitten (box 0 5000) [])))) = [onLoadEnd] \<and>
   count_list (callbacks (since (mounted browser kitten (box 0 5000) [])
     (lifecycle browser kitten (box 0 0) [thirty_of_100] (Completes 200 ''abc'')
        (mounted browser kitten (box 0 5000) [])))) onLoad = 1 \<and>
   requests_started (effects (mounted broken_reader kitten (box 0 0)
      [NetLoad 200 ''abc'', Scroll (box 0 0), ReaderEnd 0, Scroll (box 0 0)])) = 3 \<and>
   length (filter terminal (callbacks (effects (mounted broken_reader kitten (box 0 0)
      [NetLoad 200 ''abc'', Scroll (box 0 0), ReaderEnd 0, Scroll (box 0 0)])))) = 1"
  using lifecycle_terminal_callbacks [of browser kitten "box 0 5000" "[]"
      "mounted browser kitten (box 0 5000) []" "box 0 0" "[thirty_of_100]"
      "Completes 200 ''abc''"]
    lifecycle_terminal_callbacks [of broken_reader kitten "box 0 0"
      "[NetLoad 200 ''abc'', Scroll (box 0 0), ReaderEnd 0, Scroll (box 0 0)]"
      "mounted browser kitten (box 0 5000) []" "box 0 0" "[]" Aborted]
  by (simp add: eval_defs requests_started_def)

section \<open>The props handed on to the img element: what is forwarded\<close>













end
